theory Spec2Isabelle
  imports Main "HOL-Library.Word"
begin

unbundle bit_operations_syntax

section \<open>JavaScript values and the Node.js library\<close>

text \<open>
  A JavaScript string is a sequence of UTF-16 code units; \<open>length\<close> counts code units and
  \<open>Array.prototype.includes\<close> compares strings code unit by code unit. A \<open>Buffer\<close> is a
  sequence of bytes. JavaScript numbers are modelled as \<open>int\<close>: every number the code
  handles is an integer (milliseconds, counters, byte values) as long as the configured step
  and drift are integers and the step is not zero.
\<close>

type_synonym byte = "8 word"

type_synonym code_unit = "16 word"

type_synonym js_string = "code_unit list"

definition js_of :: "string \<Rightarrow> js_string" where
  \<comment> \<open>the JavaScript string of an ASCII literal\<close>
  "js_of s = map (\<lambda>c. of_nat (of_char c)) s"

text \<open>The value found under \<open>code\<close> in a parsed JSON body (\<open>JUndefined\<close>: no such field).\<close>

datatype js_value =
    JUndefined
  | JNull
  | JBool bool
  | JNumber int
  | JString js_string
  | JObject

fun truthy :: "js_value \<Rightarrow> bool" where
  "truthy JUndefined = False"
| "truthy JNull = False"
| "truthy (JBool b) = b"
| "truthy (JNumber n) = (n \<noteq> 0)"
| "truthy (JString s) = (s \<noteq> [])"
| "truthy JObject = True"

fun typeof_is_string :: "js_value \<Rightarrow> bool" where
  "typeof_is_string (JString s) = True"
| "typeof_is_string v = False"

text \<open>
  The functions of Node.js that the program calls and does not define:
  \<open>Buffer.from(str, 'utf8')\<close>, \<open>crypto.createHash('sha256').update(b).digest()\<close> and
  \<open>crypto.createHmac('sha256', k).update(m).digest()\<close>. They are parameters of the model.
\<close>

record node_lib =
  Buffer_from_utf8 :: "js_string \<Rightarrow> byte list"
  createHash_sha256 :: "byte list \<Rightarrow> byte list"
  createHmac_sha256 :: "byte list \<Rightarrow> byte list \<Rightarrow> byte list"

text \<open>
  Reading \<open>buf[i]\<close> from a Buffer: \<open>undefined\<close> (here \<open>None\<close>) outside the buffer. The
  bitwise operators convert their operands with ToInt32, which sends \<open>undefined\<close> to 0.
\<close>

definition buf_at :: "byte list \<Rightarrow> int \<Rightarrow> byte option" where
  "buf_at buf i = (if 0 \<le> i \<and> i < int (length buf) then Some (buf ! nat i) else None)"

definition toInt32 :: "byte option \<Rightarrow> 32 word" where
  "toInt32 v = (case v of None \<Rightarrow> 0 | Some b \<Rightarrow> ucast b)"

text \<open>\<open>String(n)\<close> for a non-negative integer below \<open>10^21\<close>: its decimal digits.\<close>

definition digit_unit :: "nat \<Rightarrow> code_unit" where
  "digit_unit d = of_nat (48 + d)"

function String_number :: "nat \<Rightarrow> js_string" where
  "String_number n =
     (if n < 10 then [digit_unit n] else String_number (n div 10) @ [digit_unit (n mod 10)])"
  by pat_completeness auto

termination
  by (relation "measure (\<lambda>n. n)") auto

declare String_number.simps [simp del]

definition padStart :: "nat \<Rightarrow> code_unit \<Rightarrow> js_string \<Rightarrow> js_string" where
  \<comment> \<open>\<open>s.padStart(n, u)\<close> with a one-unit pad string: \<open>s\<close> itself when it is long enough\<close>
  "padStart n u s = replicate (n - length s) u @ s"

definition js_rem :: "int \<Rightarrow> int \<Rightarrow> int" where
  \<comment> \<open>the \<open>%\<close> operator on integers: the remainder has the sign of the dividend\<close>
  "js_rem a b = a - b * (sgn a * sgn b * (\<bar>a\<bar> div \<bar>b\<bar>))"

section \<open>Code generation (src/index.js, lines 64 to 95)\<close>

definition hmacSha256 :: "node_lib \<Rightarrow> byte list \<Rightarrow> byte list \<Rightarrow> byte list" where
  "hmacSha256 L keyBytes msgBytes = createHmac_sha256 L keyBytes msgBytes"

definition textToBytes :: "node_lib \<Rightarrow> js_string \<Rightarrow> byte list" where
  "textToBytes L str = Buffer_from_utf8 L str"

text \<open>
  The loop of \<open>numTo8ByteBE\<close>: \<open>for (let i = 7; i >= 0; i--) { buf[i] = num & 0xff;
  num = Math.floor(num / 256); }\<close>. \<open>numTo8ByteBE_loop k\<close> is the loop with \<open>k\<close>
  iterations left, the next one at \<open>i = k - 1\<close>. \<open>num & 0xff\<close> is ToInt32 of \<open>num\<close>,
  masked.
\<close>

fun numTo8ByteBE_loop :: "nat \<Rightarrow> int \<Rightarrow> byte list \<Rightarrow> byte list" where
  "numTo8ByteBE_loop 0 num buf = buf"
| "numTo8ByteBE_loop (Suc i) num buf =
     numTo8ByteBE_loop i (num div 256) (buf[i := ucast ((word_of_int num :: 32 word) AND 0xff)])"

definition numTo8ByteBE :: "int \<Rightarrow> byte list" where
  "numTo8ByteBE num = numTo8ByteBE_loop 8 num (replicate 8 0)"

definition deriveKeyBytes :: "node_lib \<Rightarrow> js_string \<Rightarrow> byte list" where
  "deriveKeyBytes L seed = createHash_sha256 L (textToBytes L seed)"

definition dynamicTruncate_offset :: "byte list \<Rightarrow> int" where
  \<comment> \<open>\<open>const offset = hmacBuf[hmacBuf.length - 1] & 0x0f\<close>\<close>
  "dynamicTruncate_offset hmacBuf =
     sint (toInt32 (buf_at hmacBuf (int (length hmacBuf) - 1)) AND 0x0f)"

definition dynamicTruncate :: "byte list \<Rightarrow> nat" where
  "dynamicTruncate hmacBuf =
     (let offset = dynamicTruncate_offset hmacBuf;
          bin = (push_bit 24 (toInt32 (buf_at hmacBuf offset) AND 0x7f))
                OR (push_bit 16 (toInt32 (buf_at hmacBuf (offset + 1))))
                OR (push_bit 8 (toInt32 (buf_at hmacBuf (offset + 2))))
                OR (toInt32 (buf_at hmacBuf (offset + 3)))
      in unat bin)"

definition totpForCounter :: "node_lib \<Rightarrow> js_string \<Rightarrow> int \<Rightarrow> nat \<Rightarrow> js_string" where
  "totpForCounter L seed counter digits =
     (let key = deriveKeyBytes L seed;
          msg = numTo8ByteBE counter;
          mac = hmacSha256 L key msg;
          bin = dynamicTruncate mac;
          modulus = 10 ^ digits
      in padStart digits (digit_unit 0) (String_number (bin mod modulus)))"

section \<open>Windows and the accepted codes (src/index.js, lines 12 to 18 and 97 to 113)\<close>

text \<open>
  The configuration read from the environment: \<open>PROCTOR_SEED\<close> (the empty string when
  unset), \<open>CODE_STEP_SECONDS\<close> (30 when unset) and \<open>DRIFT_STEPS\<close> (1 when unset).
\<close>

record config =
  PROCTOR_SEED :: js_string
  CODE_STEP_SECONDS :: int
  DRIFT_STEPS :: int

definition currentWindow :: "int \<Rightarrow> int \<Rightarrow> int" where
  "currentWindow nowMs stepSec = (let t = nowMs div 1000 in t div stepSec)"

text \<open>The object \<open>{ window, codes, expiresIn }\<close> that \<open>validCodes\<close> returns.\<close>

record valid_codes =
  vc_window :: int
  codes :: "js_string list"
  expiresIn :: int

definition validCodes :: "node_lib \<Rightarrow> config \<Rightarrow> js_string \<Rightarrow> int \<Rightarrow> valid_codes" where
  "validCodes L cfg seed nowMs =
     (let ctr = currentWindow nowMs (CODE_STEP_SECONDS cfg)
      in \<lparr> vc_window = ctr,
           codes = [ totpForCounter L seed (ctr - DRIFT_STEPS cfg) 6,
                     totpForCounter L seed ctr 6,
                     totpForCounter L seed (ctr + DRIFT_STEPS cfg) 6 ],
           expiresIn = CODE_STEP_SECONDS cfg - js_rem (nowMs div 1000) (CODE_STEP_SECONDS cfg) \<rparr>)"

section \<open>The table \<open>used_codes\<close> (src/index.js, lines 28 to 35)\<close>

text \<open>
  A row of \<open>used_codes\<close>, and the table as the list of its rows in insertion order. The
  list type allows two rows with one key: that the primary key \<open>(window, sid)\<close> holds is
  a property of the statements that write the table, proved below.
\<close>

record used_code =
  window :: int
  sid :: js_string
  created_at :: int

type_synonym used_codes = "used_code list"

definition has_key :: "int \<Rightarrow> js_string \<Rightarrow> used_code \<Rightarrow> bool" where
  "has_key win s r = (window r = win \<and> sid r = s)"

definition select_used_codes :: "used_codes \<Rightarrow> int \<Rightarrow> js_string \<Rightarrow> used_code option" where
  \<comment> \<open>\<open>SELECT 1 FROM used_codes WHERE window = ? AND sid = ?\<close>, \<open>.get(win, sid)\<close>:
      a row, or \<open>undefined\<close>\<close>
  "select_used_codes db win s = find (has_key win s) db"

definition insert_or_ignore :: "used_codes \<Rightarrow> used_code \<Rightarrow> used_codes" where
  \<comment> \<open>\<open>INSERT OR IGNORE INTO used_codes (window, sid, created_at) VALUES (?, ?, ?)\<close>:
      no change when a row with this primary key is there\<close>
  "insert_or_ignore db r =
     (if find (has_key (window r) (sid r)) db \<noteq> None then db else db @ [r])"



section \<open>The handler of \<open>POST /api/verify-code\<close> (src/index.js, lines 138 to 170)\<close>

text \<open>
  The responses of the handler, named as the outcomes of the specification:
  \<^item> \<open>Accepted win e\<close>: status 200, \<open>{ ok: true, window: win, expiresInSeconds: e }\<close>;
  \<^item> \<open>InvalidInput\<close>: status 400, error \<open>invalid_code\<close>;
  \<^item> \<open>ServerMisconfigured\<close>: status 500, error \<open>server_not_configured\<close>;
  \<^item> \<open>AlreadyUsed win e\<close>: status 409, error \<open>already_used\<close>;
  \<^item> \<open>InvalidCode win e\<close>: status 401, error \<open>invalid_code\<close>.
\<close>

datatype response =
    Accepted int int
  | InvalidInput
  | ServerMisconfigured
  | AlreadyUsed int int
  | InvalidCode int int

fun is_Accepted :: "response \<Rightarrow> bool" where
  "is_Accepted (Accepted w e) = True"
| "is_Accepted r = False"

definition resolve_sid :: "js_string option \<Rightarrow> js_string \<Rightarrow> js_string" where
  \<comment> \<open>\<open>let sid = cookies['sid']; if (!sid) sid = makeSid()\<close>; \<open>fresh\<close> is what
      \<open>makeSid()\<close> would return\<close>
  "resolve_sid cookie fresh =
     (case cookie of None \<Rightarrow> fresh | Some s \<Rightarrow> if s = [] then fresh else s)"

definition string_of :: "js_value \<Rightarrow> js_string" where
  "string_of v = (case v of JString s \<Rightarrow> s | _ \<Rightarrow> [])"

text \<open>
  The handler from line 146 on, for the session \<open>sid\<close> of the request. \<open>db\<close> is the
  table before the request, \<open>code\<close> the field \<open>code\<close> of the body, \<open>nowMs\<close> the
  \<open>Date.now()\<close> read inside \<open>validCodes\<close> and \<open>insertMs\<close> the \<open>Date.now()\<close>
  of line 167. The result is the table after the request and the response.
\<close>

definition verify_code ::
  "node_lib \<Rightarrow> config \<Rightarrow> used_codes \<Rightarrow> js_string \<Rightarrow> js_value \<Rightarrow> int \<Rightarrow> int
     \<Rightarrow> used_codes \<times> response" where
  "verify_code L cfg db sid' code nowMs insertMs =
     (if \<not> truthy code \<or> \<not> typeof_is_string code \<or> length (string_of code) < 6
      then (db, InvalidInput)
      else if PROCTOR_SEED cfg = [] then (db, ServerMisconfigured)
      else
        let vc = validCodes L cfg (PROCTOR_SEED cfg) nowMs;
            win = vc_window vc
        in if select_used_codes db win sid' \<noteq> None
           then (db, AlreadyUsed win (expiresIn vc))
           else if string_of code \<notin> set (codes vc)
           then (db, InvalidCode win (expiresIn vc))
           else (insert_or_ignore db \<lparr> window = win, sid = sid', created_at = insertMs \<rparr>,
                 Accepted win (expiresIn vc)))"

text \<open>
  A request as the handler sees it: the value of the cookie \<open>sid\<close> (\<open>None\<close> when the
  request carries none), the identifier that \<open>makeSid()\<close> returns if it is called, the
  field \<open>code\<close> of the body and the two clock readings. \<open>run\<close> is the table after a
  sequence of requests, handled one after the other.
\<close>

record request =
  req_cookie_sid :: "js_string option"
  req_fresh_sid :: js_string
  req_code :: js_value
  req_now :: int
  req_insert_now :: int

definition handle :: "node_lib \<Rightarrow> config \<Rightarrow> used_codes \<Rightarrow> request \<Rightarrow> used_codes" where
  "handle L cfg db rq =
     fst (verify_code L cfg db (resolve_sid (req_cookie_sid rq) (req_fresh_sid rq))
            (req_code rq) (req_now rq) (req_insert_now rq))"

definition run :: "node_lib \<Rightarrow> config \<Rightarrow> used_codes \<Rightarrow> request list \<Rightarrow> used_codes" where
  "run L cfg db rqs = foldl (handle L cfg) db rqs"

section \<open>Definitions used to state the properties\<close>

text \<open>Decimal digits as code units, and the number that a string of digits denotes.\<close>

definition is_digit_unit :: "code_unit \<Rightarrow> bool" where
  "is_digit_unit u = (48 \<le> u \<and> u \<le> 57)"

definition decimal_value :: "js_string \<Rightarrow> nat" where
  "decimal_value s = foldl (\<lambda>acc u. 10 * acc + (unat u - 48)) 0 s"

text \<open>
  The indices at which \<open>dynamicTruncate\<close> reads its buffer, in the order of the source:
  \<open>hmacBuf.length - 1\<close>, then \<open>offset\<close> to \<open>offset + 3\<close>.
\<close>

definition dynamicTruncate_reads :: "byte list \<Rightarrow> int list" where
  "dynamicTruncate_reads hmacBuf =
     (let offset = dynamicTruncate_offset hmacBuf
      in [int (length hmacBuf) - 1, offset, offset + 1, offset + 2, offset + 3])"

text \<open>
  The code generator as the specification words it (section 4.1, steps 1 to 6):
  \<open>be64_spec\<close> is the counter as an 8-byte big-endian unsigned integer,
  \<open>computeCode_spec\<close> the six steps, with the same SHA-256 and HMAC-SHA256 as the program.
\<close>

definition be64_spec :: "nat \<Rightarrow> byte list" where
  "be64_spec n = map (\<lambda>i. of_nat ((n div 256 ^ (7 - i)) mod 256)) [0..<8]"

definition computeCode_spec :: "node_lib \<Rightarrow> js_string \<Rightarrow> nat \<Rightarrow> nat \<Rightarrow> js_string" where
  "computeCode_spec L secret counter digits =
     (let key = createHash_sha256 L (Buffer_from_utf8 L secret);
          mac = createHmac_sha256 L key (be64_spec counter);
          offset = unat (mac ! 31 AND 0x0F);
          v = unat (mac ! offset AND 0x7F) * 2 ^ 24 + unat (mac ! (offset + 1)) * 2 ^ 16
              + unat (mac ! (offset + 2)) * 2 ^ 8 + unat (mac ! (offset + 3));
          str = String_number (v mod 10 ^ digits)
      in replicate (digits - length str) (digit_unit 0) @ str)"

text \<open>
  The accepted code set as the specification words it (section 4.4, step 4): the codes of
  all windows from \<open>w - drift\<close> to \<open>w + drift\<close>.
\<close>

definition accepted_set_spec :: "node_lib \<Rightarrow> js_string \<Rightarrow> int \<Rightarrow> int \<Rightarrow> js_string set" where
  "accepted_set_spec L secret w drift = (\<lambda>c. totpForCounter L secret c 6) ` {w - drift .. w + drift}"

text \<open>
  A submitted code as the specification wants it (section 4.4, step 1): a string of exactly
  six decimal digits. \<open>passes_boundary\<close> is what the check of line 147 lets through.
\<close>

definition well_formed_spec :: "js_value \<Rightarrow> bool" where
  "well_formed_spec code =
     (case code of JString s \<Rightarrow> length s = 6 \<and> list_all is_digit_unit s | _ \<Rightarrow> False)"

definition passes_boundary :: "js_value \<Rightarrow> bool" where
  "passes_boundary code = (case code of JString s \<Rightarrow> 6 \<le> length s | _ \<Rightarrow> False)"

fun is_AlreadyUsed :: "response \<Rightarrow> bool" where
  "is_AlreadyUsed (AlreadyUsed w e) = True"
| "is_AlreadyUsed r = False"

definition keys_of :: "used_codes \<Rightarrow> (int \<times> js_string) set" where
  \<comment> \<open>the primary keys present in the table\<close>
  "keys_of db = (\<lambda>r. (window r, sid r)) ` set db"

section \<open>The functions of Node.js\<close>

text \<open>
  The digests of Node.js are not code of the repository, and the theorems below hold for
  every library \<open>L\<close>. To run the model on concrete inputs the three functions are defined
  here from their standards: SHA-256 from FIPS 180-4, HMAC from RFC 2104 and UTF-8 from
  RFC 3629 (with U+FFFD for a lone surrogate, as \<open>Buffer.from\<close> encodes it). \<open>node\<close>
  is the library made of them.
\<close>

type_synonym w32 = "32 word"

type_synonym sha_state = "w32 \<times> w32 \<times> w32 \<times> w32 \<times> w32 \<times> w32 \<times> w32 \<times> w32"

definition K256 :: "w32 list" where
  "K256 =
     [ 1116352408, 1899447441, 3049323471, 3921009573, 961987163, 1508970993,
       2453635748, 2870763221, 3624381080, 310598401, 607225278, 1426881987,
       1925078388, 2162078206, 2614888103, 3248222580, 3835390401, 4022224774,
       264347078, 604807628, 770255983, 1249150122, 1555081692, 1996064986,
       2554220882, 2821834349, 2952996808, 3210313671, 3336571891, 3584528711,
       113926993, 338241895, 666307205, 773529912, 1294757372, 1396182291,
       1695183700, 1986661051, 2177026350, 2456956037, 2730485921, 2820302411,
       3259730800, 3345764771, 3516065817, 3600352804, 4094571909, 275423344,
       430227734, 506948616, 659060556, 883997877, 958139571, 1322822218,
       1537002063, 1747873779, 1955562222, 2024104815, 2227730452, 2361852424,
       2428436474, 2756734187, 3204031479, 3329325298 ]"

definition H0 :: sha_state where
  "H0 = (1779033703, 3144134277, 1013904242, 2773480762, 1359893119, 2600822924, 528734635, 1541459225)"

text \<open>
  The functions of FIPS 180-4, section 4.1.2, the message schedule and the rounds of section
  6.2.2 on one block of 64 bytes, and the padding of section 5.1.1. The constants \<open>K256\<close>
  (section 4.2.2) and the initial hash value \<open>H0\<close> (section 5.3.3) are written in decimal.
  \<open>sha256_tail st n m\<close> finishes a hash whose first \<open>n\<close> bytes have led to the state
  \<open>st\<close> and whose remaining bytes are \<open>m\<close>.
\<close>

definition rotr :: "nat \<Rightarrow> w32 \<Rightarrow> w32" where
  "rotr n x = (drop_bit n x) OR (push_bit (32 - n) x)"

definition ssig0 :: "w32 \<Rightarrow> w32" where
  "ssig0 x = rotr 7 x XOR rotr 18 x XOR drop_bit 3 x"

definition ssig1 :: "w32 \<Rightarrow> w32" where
  "ssig1 x = rotr 17 x XOR rotr 19 x XOR drop_bit 10 x"

definition bsig0 :: "w32 \<Rightarrow> w32" where
  "bsig0 x = rotr 2 x XOR rotr 13 x XOR rotr 22 x"

definition bsig1 :: "w32 \<Rightarrow> w32" where
  "bsig1 x = rotr 6 x XOR rotr 11 x XOR rotr 25 x"

definition Ch :: "w32 \<Rightarrow> w32 \<Rightarrow> w32 \<Rightarrow> w32" where
  "Ch x y z = (x AND y) XOR (NOT x AND z)"

definition Maj :: "w32 \<Rightarrow> w32 \<Rightarrow> w32 \<Rightarrow> w32" where
  "Maj x y z = (x AND y) XOR (x AND z) XOR (y AND z)"

fun be32 :: "byte list \<Rightarrow> w32 list" where
  "be32 (a # b # c # d # r) = (push_bit 24 (ucast a) OR push_bit 16 (ucast b) OR push_bit 8 (ucast c) OR ucast d) # be32 r"
| "be32 _ = []"

fun sched :: "nat \<Rightarrow> w32 list \<Rightarrow> w32 list" where
  "sched 0 ws = ws"
| "sched (Suc n) ws = sched n ((ssig1 (ws ! 1) + ws ! 6 + ssig0 (ws ! 14) + ws ! 15) # ws)"

definition round1 :: "sha_state \<Rightarrow> w32 \<times> w32 \<Rightarrow> sha_state" where
  "round1 s kw = (case s of (a,b,c,d,e,f,g,h) \<Rightarrow> case kw of (k, w) \<Rightarrow>
     (let t1 = h + bsig1 e + Ch e f g + k + w; t2 = bsig0 a + Maj a b c
      in (t1 + t2, a, b, c, d + t1, e, f, g)))"

definition st_add :: "sha_state \<Rightarrow> sha_state \<Rightarrow> sha_state" where
  "st_add s t = (case s of (a,b,c,d,e,f,g,h) \<Rightarrow> case t of (a',b',c',d',e',f',g',h') \<Rightarrow>
     (a+a',b+b',c+c',d+d',e+e',f+f',g+g',h+h'))"

definition compress :: "sha_state \<Rightarrow> byte list \<Rightarrow> sha_state" where
  "compress hs block = st_add hs (foldl round1 hs (zip K256 (rev (sched 48 (rev (be32 block))))))"

fun blocks :: "nat \<Rightarrow> byte list \<Rightarrow> sha_state \<Rightarrow> sha_state" where
  "blocks 0 bs hs = hs"
| "blocks (Suc n) bs hs = blocks n (drop 64 bs) (compress hs (take 64 bs))"

definition u64be :: "nat \<Rightarrow> byte list" where
  "u64be n = map (\<lambda>i. of_nat (n div 256 ^ (7 - i))) [0..<8]"

definition w32_bytes :: "w32 \<Rightarrow> byte list" where
  "w32_bytes w = [ucast (drop_bit 24 w), ucast (drop_bit 16 w), ucast (drop_bit 8 w), ucast w]"

definition digest_bytes :: "sha_state \<Rightarrow> byte list" where
  "digest_bytes s = (case s of (a,b,c,d,e,f,g,h) \<Rightarrow> concat (map w32_bytes [a,b,c,d,e,f,g,h]))"

definition sha256_tail :: "sha_state \<Rightarrow> nat \<Rightarrow> byte list \<Rightarrow> byte list" where
  "sha256_tail st n m =
     (let p = m @ [0x80] @ replicate ((119 - length m mod 64) mod 64) 0 @ u64be (8 * (n + length m))
      in digest_bytes (blocks (length p div 64) p st))"

definition sha256 :: "byte list \<Rightarrow> byte list" where
  "sha256 m = sha256_tail H0 0 m"

text \<open>HMAC with the block size of SHA-256, 64 bytes.\<close>

definition hmac_sha256 :: "byte list \<Rightarrow> byte list \<Rightarrow> byte list" where
  "hmac_sha256 key msg =
     (let k0 = (if length key > 64 then sha256 key else key);
          k = k0 @ replicate (64 - length k0) 0
      in sha256 (map (\<lambda>b. b XOR 0x5c) k @ sha256 (map (\<lambda>b. b XOR 0x36) k @ msg)))"

text \<open>\<open>Buffer.from(str, 'utf8')\<close> on the code units of a JavaScript string.\<close>

fun utf8_encode :: "js_string \<Rightarrow> byte list" where
  "utf8_encode [] = []"
| "utf8_encode (u # us) =
     (if u < 0x80 then ucast u # utf8_encode us
      else if u < 0x800 then
        (0xC0 OR ucast (drop_bit 6 u)) # (0x80 OR ucast (u AND 0x3F)) # utf8_encode us
      else if 0xD800 \<le> u \<and> u < 0xDC00 then
        (case us of
           [] \<Rightarrow> [0xEF, 0xBF, 0xBD]
         | v # vs \<Rightarrow>
             if 0xDC00 \<le> v \<and> v < 0xE000 then
               (let cp = 0x10000 + push_bit 10 (ucast (u AND 0x3FF)) + ucast (v AND 0x3FF) :: 32 word
                in (0xF0 OR ucast (drop_bit 18 cp)) # (0x80 OR ucast (drop_bit 12 cp AND 0x3F))
                   # (0x80 OR ucast (drop_bit 6 cp AND 0x3F)) # (0x80 OR ucast (cp AND 0x3F))
                   # utf8_encode vs)
             else [0xEF, 0xBF, 0xBD] @ utf8_encode us)
      else if 0xDC00 \<le> u \<and> u < 0xE000 then [0xEF, 0xBF, 0xBD] @ utf8_encode us
      else (0xE0 OR ucast (drop_bit 12 u)) # (0x80 OR ucast (drop_bit 6 u AND 0x3F))
           # (0x80 OR ucast (u AND 0x3F)) # utf8_encode us)"

definition node :: node_lib where
  "node = \<lparr> Buffer_from_utf8 = utf8_encode,
             createHash_sha256 = sha256,
             createHmac_sha256 = hmac_sha256 \<rparr>"

text \<open>
  Two identity functions that mark where the evaluation below reduces a numeral to its
  value modulo \<open>2^32\<close> and \<open>2^8\<close>.
\<close>

definition norm32 :: "w32 \<Rightarrow> w32" where
  "norm32 x = x"

definition norm8 :: "byte \<Rightarrow> byte" where
  "norm8 x = x"

section \<open>Concrete inputs\<close>

text \<open>
  The configurations are the defaults of the program with the seed \<open>test-seed\<close>, the
  same with a drift of two steps, and the defaults without a seed. \<open>test_key\<close> is the
  SHA-256 digest of \<open>test-seed\<close>, \<open>test_ipad\<close> and \<open>test_opad\<close> are the states of
  SHA-256 after the block of the key padded with \<open>0x36\<close> and with \<open>0x5c\<close>. At
  \<open>nowMs = 30000000\<close> the window is 1000.
\<close>

definition cfg_default :: config where
  "cfg_default = \<lparr> PROCTOR_SEED = js_of ''test-seed'', CODE_STEP_SECONDS = 30, DRIFT_STEPS = 1 \<rparr>"

definition cfg_drift2 :: config where
  "cfg_drift2 = \<lparr> PROCTOR_SEED = js_of ''test-seed'', CODE_STEP_SECONDS = 30, DRIFT_STEPS = 2 \<rparr>"

definition cfg_unset :: config where
  "cfg_unset = \<lparr> PROCTOR_SEED = [], CODE_STEP_SECONDS = 30, DRIFT_STEPS = 1 \<rparr>"

definition test_ipad :: sha_state where
  "test_ipad =
     (2921764200, 711441755, 2777663109, 2202830858, 4067255631,
      3416222713, 3482425303, 1305864733)"

definition test_opad :: sha_state where
  "test_opad =
     (3540021821, 2805802457, 1889389578, 1953827521, 1776600580,
      2552438645, 4181224322, 2537759774)"

definition test_key :: "byte list" where
  "test_key =
     [214, 60, 208, 141, 130, 170, 78, 180, 142, 12, 198, 79,
      180, 102, 233, 9, 191, 195, 135, 150, 100, 197, 202, 168,
      216, 205, 237, 167, 60, 4, 65, 144]"

section \<open>Decimal strings\<close>

lemma unat_digit_unit: "d < 10 \<Longrightarrow> unat (digit_unit d) = 48 + d"
proof -
  assume d: "d < 10"
  have "unat (of_nat (48 + d) :: code_unit) = (48 + d) mod 2 ^ LENGTH(16)"
    by (rule unat_of_nat)
  with d show ?thesis unfolding digit_unit_def by simp
qed

lemma is_digit_unit_digit: "d < 10 \<Longrightarrow> is_digit_unit (digit_unit d)"
  by (simp add: is_digit_unit_def word_le_nat_alt unat_digit_unit)

lemma String_number_digits: "list_all is_digit_unit (String_number n)"
proof (induction n rule: String_number.induct)
  case (1 n)
  show ?case
  proof (cases "n < 10")
    case True
    then show ?thesis by (subst String_number.simps) (simp add: is_digit_unit_digit)
  next
    case False
    with 1 show ?thesis by (subst String_number.simps) (simp add: is_digit_unit_digit)
  qed
qed

lemma String_number_length: "0 < d \<Longrightarrow> n < 10 ^ d \<Longrightarrow> length (String_number n) \<le> d"
proof (induction n arbitrary: d rule: String_number.induct)
  case (1 n)
  show ?case
  proof (cases "n < 10")
    case True
    with 1(2) show ?thesis by (subst String_number.simps) simp
  next
    case False
    from False 1(3) have d1: "1 < d" by (cases "d = 1") (use 1(2) in auto)
    then obtain d' where d': "d = Suc d'" "0 < d'" by (cases d) auto
    from 1(3) d' have "n div 10 < 10 ^ d'" by (simp add: less_mult_imp_div_less mult.commute)
    with 1(1) [OF False d'(2)] have "length (String_number (n div 10)) \<le> d'" .
    with False d' show ?thesis by (subst String_number.simps) simp
  qed
qed

lemma decimal_value_append: "decimal_value (s @ [u]) = 10 * decimal_value s + (unat u - 48)"
  by (simp add: decimal_value_def)

lemma decimal_value_String_number: "decimal_value (String_number n) = n"
proof (induction n rule: String_number.induct)
  case (1 n)
  show ?case
  proof (cases "n < 10")
    case True
    then show ?thesis
      by (subst String_number.simps) (simp add: decimal_value_def unat_digit_unit)
  next
    case False
    with 1 show ?thesis
      by (subst String_number.simps) (simp add: decimal_value_append unat_digit_unit)
  qed
qed

lemma decimal_value_zeros: "decimal_value (replicate k (digit_unit 0) @ s) = decimal_value s"
proof -
  have "foldl (\<lambda>acc u. 10 * acc + (unat u - 48)) 0 (replicate k (digit_unit 0)) = 0"
    by (induction k) (simp_all add: unat_digit_unit)
  then show ?thesis by (simp add: decimal_value_def)
qed

lemma padStart_length: "length s \<le> n \<Longrightarrow> length (padStart n u s) = n"
  by (simp add: padStart_def)

section \<open>Bytes and 32-bit words\<close>

lemma m4: "(0x0f :: 'a::len word) = mask 4"
  by (simp add: mask_eq_exp_minus_1)

lemma m7: "(0x7f :: 'a::len word) = mask 7"
  by (simp add: mask_eq_exp_minus_1)

lemma m8: "(0xff :: 'a::len word) = mask 8"
  by (simp add: mask_eq_exp_minus_1)

lemma ucast_and_mask: "(ucast (b::byte) :: 32 word) AND mask k = ucast (b AND mask k)"
  by (rule bit_word_eqI) (auto simp: bit_simps dest: bit_imp_le_length)

lemma unat_byte_less: "unat (b::byte) < 256"
  using unsigned_less [of b, where ?'a = nat] by simp

lemma unat_ucast_byte: "unat (ucast (b::byte) :: 32 word) = unat b"
proof -
  have "unat b < 2 ^ 32" using unat_byte_less [of b] by simp
  then show ?thesis by (simp add: unsigned_ucast_eq take_bit_nat_eq_self)
qed

lemma unat_and_mask_less: "unat ((b::byte) AND mask k) < 2 ^ k"
proof -
  have "uint (b AND mask k) < 2 ^ k" by (rule and_mask_lt_2p)
  then have "int (unat (b AND mask k)) < int (2 ^ k)" by simp
  then show ?thesis by (simp only: of_nat_less_iff)
qed

lemma unat_push_bit_byte:
  assumes "k \<le> 24"
  shows "unat (push_bit k (ucast (b::byte)) :: 32 word) = unat b * 2 ^ k"
proof -
  have "unat b * 2 ^ k < 256 * 2 ^ k"
    using unat_byte_less [of b] by simp
  also have "(256::nat) * 2 ^ k = 2 ^ (8 + k)" by (simp add: power_add)
  also have "\<dots> \<le> 2 ^ 32" using assms by (intro power_increasing) simp_all
  finally have lt: "unat b * 2 ^ k < 2 ^ 32" .
  have "unat (push_bit k (ucast b) :: 32 word) = take_bit 32 (push_bit k (unat (ucast b :: 32 word)))"
    by (subst unsigned_push_bit_eq) simp
  also have "\<dots> = take_bit 32 (unat b * 2 ^ k)"
    by (simp only: unat_ucast_byte push_bit_eq_mult)
  also have "\<dots> = unat b * 2 ^ k"
    using lt by (rule take_bit_nat_eq_self)
  finally show ?thesis .
qed

lemma or_sum:
  "(push_bit 24 ((ucast (a::byte) :: 32 word) AND 0x7f)) OR (push_bit 16 (ucast (b::byte)))
     OR (push_bit 8 (ucast (c::byte))) OR (ucast (d::byte))
   = push_bit 24 (ucast (a AND 0x7f)) + (push_bit 16 (ucast b) + (push_bit 8 (ucast c) + ucast d))"
proof -
  let ?A = "push_bit 24 (ucast (a AND mask 7)) :: 32 word"
  let ?B = "push_bit 16 (ucast b) :: 32 word"
  let ?C = "push_bit 8 (ucast c) :: 32 word"
  let ?D = "ucast d :: 32 word"
  have 1: "?C + ?D = ?C OR ?D"
    by (rule disjunctive_add) (auto simp: bit_simps dest: bit_imp_le_length)
  have 2: "?B + (?C OR ?D) = ?B OR (?C OR ?D)"
    by (rule disjunctive_add) (auto simp: bit_simps dest: bit_imp_le_length)
  have 3: "?A + (?B OR (?C OR ?D)) = ?A OR (?B OR (?C OR ?D))"
    by (rule disjunctive_add) (auto simp: bit_simps dest: bit_imp_le_length)
  show ?thesis
    unfolding m7 ucast_and_mask 1 2 3 by (simp add: or.assoc)
qed

lemma unat_or_sum:
  "unat ((push_bit 24 ((ucast (a::byte) :: 32 word) AND 0x7f)) OR (push_bit 16 (ucast (b::byte)))
     OR (push_bit 8 (ucast (c::byte))) OR (ucast (d::byte)))
   = unat (a AND 0x7f) * 2 ^ 24 + unat b * 2 ^ 16 + unat c * 2 ^ 8 + unat d"
proof -
  have a: "unat (a AND 0x7f) < 128" using unat_and_mask_less [of a 7] by (simp add: m7)
  note bs = unat_byte_less [of b] unat_byte_less [of c] unat_byte_less [of d]
  have "unat (a AND 0x7f) * 2 ^ 24 + unat b * 2 ^ 16 + unat c * 2 ^ 8 + unat d < 2 ^ 32"
    using a bs by simp
  then show ?thesis
    unfolding or_sum
    by (simp add: unat_word_ariths unat_push_bit_byte unat_ucast_byte)
qed

lemma sint_offset: "sint ((ucast (b::byte) :: 32 word) AND 0x0f) = int (unat (b AND 0x0f))"
proof -
  have lt: "uint (b AND mask 4) < 2 ^ 4" by (rule and_mask_lt_2p)
  have u: "uint (ucast (b AND mask 4) :: 32 word) = uint (b AND mask 4)"
    by (metis uint_nat unat_ucast_byte)
  have "signed_take_bit 31 (uint (b AND mask 4)) = uint (b AND mask 4)"
  proof (rule signed_take_bit_int_eq_self)
    show "- (2 ^ 31) \<le> uint (b AND mask 4)"
      by (rule order_trans [OF _ uint_ge_0]) simp
    show "uint (b AND mask 4) < 2 ^ 31" using lt by simp
  qed
  then have "sint (ucast (b AND mask 4) :: 32 word) = uint (b AND mask 4)"
    by (simp add: sint_uint u)
  then show ?thesis
    unfolding m4 ucast_and_mask by simp
qed

section \<open>The counter as eight bytes\<close>

lemma low_byte: "(ucast ((word_of_int num :: 32 word) AND 0xff) :: byte) = word_of_int num"
  unfolding m8 by (rule bit_word_eqI) (auto simp: bit_simps)

lemma numTo8ByteBE_loop_eq:
  "k \<le> length buf \<Longrightarrow>
   numTo8ByteBE_loop k num buf =
     map (\<lambda>i. word_of_int (num div 256 ^ (k - 1 - i))) [0..<k] @ drop k buf"
proof (induction k arbitrary: num buf)
  case 0
  then show ?case by simp
next
  case (Suc k)
  have d: "num div 256 div 256 ^ (k - Suc i) = num div 256 ^ (k - i)" if "i < k" for i
  proof -
    from that have "k - i = Suc (k - Suc i)" by simp
    then show ?thesis by (simp add: zdiv_zmult2_eq)
  qed
  from Suc.prems have k: "k < length buf" by simp
  have "numTo8ByteBE_loop (Suc k) num buf
          = numTo8ByteBE_loop k (num div 256) (buf[k := word_of_int num])"
    by (simp add: low_byte)
  also have "\<dots> = map (\<lambda>i. word_of_int (num div 256 div 256 ^ (k - 1 - i))) [0..<k]
                    @ drop k (buf[k := word_of_int num])"
    using k by (intro Suc.IH) simp
  also have "map (\<lambda>i. word_of_int (num div 256 div 256 ^ (k - 1 - i)) :: byte) [0..<k]
               = map (\<lambda>i. word_of_int (num div 256 ^ (k - i))) [0..<k]"
    by (rule map_cong) (simp_all add: d)
  also have "drop k (buf[k := word_of_int num]) = word_of_int num # drop (Suc k) buf"
    using k by (simp add: drop_update_cancel Cons_nth_drop_Suc [symmetric] upd_conv_take_nth_drop)
  finally show ?case by simp
qed

lemma numTo8ByteBE_eq:
  "numTo8ByteBE num = map (\<lambda>i. word_of_int (num div 256 ^ (7 - i))) [0..<8]"
  unfolding numTo8ByteBE_def by (subst numTo8ByteBE_loop_eq) simp_all

lemma byte_of_nat_mod: "(of_nat (m mod 256) :: byte) = of_nat m"
  by (simp add: word_of_nat_eq_iff take_bit_eq_mod)

lemma numTo8ByteBE_be64: "numTo8ByteBE (int n) = be64_spec n"
proof -
  have "(word_of_int (int n div 256 ^ k) :: byte) = of_nat ((n div 256 ^ k) mod 256)" for k
  proof -
    have "int n div 256 ^ k = int (n div 256 ^ k)" by (simp add: zdiv_int)
    then show ?thesis by (simp only: of_int_of_nat_eq byte_of_nat_mod)
  qed
  then show ?thesis by (simp add: numTo8ByteBE_eq be64_spec_def)
qed

lemma length_numTo8ByteBE: "length (numTo8ByteBE num) = 8"
  by (simp add: numTo8ByteBE_eq)

section \<open>Dynamic truncation of a 32-byte digest\<close>

lemma offset32:
  assumes "length hmacBuf = 32"
  shows "dynamicTruncate_offset hmacBuf = int (unat (hmacBuf ! 31 AND 0x0f))"
  using assms by (simp add: dynamicTruncate_offset_def buf_at_def toInt32_def sint_offset)

lemma offset_le15: "unat ((b::byte) AND 0x0f) \<le> 15"
  using unat_and_mask_less [of b 4] by (simp add: m4)

lemma dynamicTruncate32:
  assumes "length hmacBuf = 32"
  shows "dynamicTruncate hmacBuf =
     (let offset = unat (hmacBuf ! 31 AND 0x0F)
      in unat (hmacBuf ! offset AND 0x7F) * 2 ^ 24 + unat (hmacBuf ! (offset + 1)) * 2 ^ 16
          + unat (hmacBuf ! (offset + 2)) * 2 ^ 8 + unat (hmacBuf ! (offset + 3)))"
proof -
  define off where "off = unat (hmacBuf ! 31 AND 0x0F)"
  have le: "off \<le> 15" unfolding off_def by (rule offset_le15)
  have o: "dynamicTruncate_offset hmacBuf = int off"
    unfolding off_def by (rule offset32 [OF assms])
  have rd: "buf_at hmacBuf (int off + int j) = Some (hmacBuf ! (off + j))" if "j \<le> 3" for j
    using that le assms by (simp add: buf_at_def nat_add_distrib)
  have rd0: "buf_at hmacBuf (int off) = Some (hmacBuf ! off)"
    using rd [of 0] by simp
  have "dynamicTruncate hmacBuf =
          unat (push_bit 24 ((ucast (hmacBuf ! off) :: 32 word) AND 0x7f)
                OR push_bit 16 (ucast (hmacBuf ! (off + 1)))
                OR push_bit 8 (ucast (hmacBuf ! (off + 2)))
                OR ucast (hmacBuf ! (off + 3)))"
    using rd [of 1] rd [of 2] rd [of 3] rd0
    by (simp add: dynamicTruncate_def o toInt32_def Let_def)
  then show ?thesis by (simp only: unat_or_sum off_def Let_def)
qed

lemma offset_bounds32:
  assumes "length hmacBuf = 32"
  shows "0 \<le> dynamicTruncate_offset hmacBuf" and "dynamicTruncate_offset hmacBuf \<le> 15"
proof -
  have "unat (hmacBuf ! 31 AND 0x0f) \<le> 15" by (rule offset_le15)
  then have "int (unat (hmacBuf ! 31 AND 0x0f)) \<le> 15"
    by (simp only: of_nat_le_iff [symmetric, where ?'a = int] of_nat_numeral)
  then show "dynamicTruncate_offset hmacBuf \<le> 15" by (simp only: offset32 [OF assms])
  show "0 \<le> dynamicTruncate_offset hmacBuf" by (simp only: offset32 [OF assms] of_nat_0_le_iff)
qed

section \<open>Evaluation on the concrete inputs\<close>

lemma String_number_small: "n < 10 \<Longrightarrow> String_number n = [digit_unit n]"
  by (subst String_number.simps) simp

lemma String_number_step: "\<not> n < 10 \<Longrightarrow> String_number n = String_number (n div 10) @ [digit_unit (n mod 10)]"
  by (subst String_number.simps) simp

lemma replicate_numeral_Cons: "replicate (numeral k) x = x # replicate (pred_numeral k) x"
  by (simp add: numeral_eq_Suc)

lemma upt8: "[0..<8] = [0,1,2,3,4,5,6,7]"
  by (simp add: upt_rec)

text \<open>
  SHA-256 and HMAC-SHA256 are evaluated by rewriting. The rules below put \<open>norm32\<close>
  around every sum and rotation, so that each intermediate numeral is reduced modulo
  \<open>2^32\<close> as soon as it is computed.
\<close>

lemma norm32_nat: "norm32 (word_of_nat n) = word_of_nat (take_bit 32 n)"
  by (simp add: norm32_def word_of_nat_eq_iff)

lemma norm32_numeral: "norm32 (numeral k) = word_of_nat (take_bit 32 (numeral k))"
  using norm32_nat [of "numeral k"] by (simp only: of_nat_numeral)

lemma norm32_0: "norm32 0 = 0"
  by (simp add: norm32_def)

lemma norm32_1: "norm32 1 = 1"
  by (simp add: norm32_def)

lemma round1_eval:
  "round1 (a,b,c,d,e,f,g,h) (k, w) =
     (let t1 = norm32 (h + bsig1 e + Ch e f g + k + w); t2 = norm32 (bsig0 a + Maj a b c)
      in (norm32 (t1 + t2), a, b, c, norm32 (d + t1), e, f, g))"
  by (simp add: round1_def norm32_def)

lemma sched_numeral:
  "sched (numeral n) ws = sched (pred_numeral n) (norm32 (ssig1 (ws ! 1) + ws ! 6 + ssig0 (ws ! 14) + ws ! 15) # ws)"
  by (simp add: numeral_eq_Suc norm32_def)

lemma st_add_eval:
  "st_add (a,b,c,d,e,f,g,h) (a',b',c',d',e',f',g',h') =
     (norm32 (a+a'), norm32 (b+b'), norm32 (c+c'), norm32 (d+d'), norm32 (e+e'), norm32 (f+f'), norm32 (g+g'), norm32 (h+h'))"
  by (simp add: st_add_def norm32_def)

lemma rotr_eval: "rotr n x = norm32 ((drop_bit n x) OR (push_bit (32 - n) x))"
  by (simp add: rotr_def norm32_def)

lemma Ch_eval: "Ch x y z = z XOR (x AND (y XOR z))"
  unfolding Ch_def by (rule bit_word_eqI) (auto simp: bit_simps)

lemmas sha_round_eval = round1_eval rotr_eval Ch_eval Maj_def bsig0_def bsig1_def
  norm32_numeral norm32_0 norm32_1 Let_def

lemma blocks_numeral:
  "blocks (numeral n) bs hs = blocks (pred_numeral n) (drop 64 bs) (compress hs (take 64 bs))"
  by (simp add: numeral_eq_Suc)

lemma blocks_1: "blocks 1 bs hs = compress hs (take 64 bs)"
  by simp

lemma norm8_nat: "norm8 (word_of_nat n) = word_of_nat (take_bit 8 n)"
  by (simp add: norm8_def word_of_nat_eq_iff)

lemma norm8_numeral: "norm8 (numeral k) = word_of_nat (take_bit 8 (numeral k))"
  using norm8_nat [of "numeral k"] by (simp only: of_nat_numeral)

lemma norm8_0: "norm8 0 = 0"
  by (simp add: norm8_def)

lemma norm8_1: "norm8 1 = 1"
  by (simp add: norm8_def)

lemma w32_bytes_eval:
  "w32_bytes w = [norm8 (ucast (drop_bit 24 w)), norm8 (ucast (drop_bit 16 w)), norm8 (ucast (drop_bit 8 w)), norm8 (ucast w)]"
  by (simp add: w32_bytes_def norm8_def)

lemmas sha_eval =
  sha256_def sha256_tail_def digest_bytes_def u64be_def upt8 replicate_numeral_Cons
  blocks_numeral blocks_1 compress_def K256_def H0_def sched_numeral
  ssig0_def ssig1_def st_add_eval w32_bytes_eval sha_round_eval
  norm8_numeral norm8_0 norm8_1

text \<open>The digest of \<open>abc\<close>, as FIPS 180-4 gives it.\<close>

lemma sha256_abc:
  "sha256 [97, 98, 99] =
     [0xba, 0x78, 0x16, 0xbf, 0x8f, 0x01, 0xcf, 0xea, 0x41, 0x41, 0x40, 0xde, 0x5d, 0xae, 0x22, 0x23,
      0xb0, 0x03, 0x61, 0xa3, 0x96, 0x17, 0x7a, 0x9c, 0xb4, 0x10, 0xff, 0x61, 0xf2, 0x00, 0x15, 0xad]"
  by (simp add: sha_eval)

lemma seed_bytes: "textToBytes node (js_of ''test-seed'') = [116, 101, 115, 116, 45, 115, 101, 101, 100]"
  by (simp add: textToBytes_def node_def js_of_def)

lemma key_eval: "deriveKeyBytes node (js_of ''test-seed'') =
  [214, 60, 208, 141, 130, 170, 78, 180, 142, 12, 198, 79,
   180, 102, 233, 9, 191, 195, 135, 150, 100, 197, 202, 168,
   216, 205, 237, 167, 60, 4, 65, 144]"
  unfolding deriveKeyBytes_def seed_bytes
  by (simp add: node_def sha_eval)

text \<open>
  Every digest has 32 bytes. With a key of 32 bytes, HMAC-SHA256 is two hashes that start
  from the states reached after the inner and the outer padded key.
\<close>

lemma length_digest_bytes: "length (digest_bytes s) = 32"
  by (simp add: digest_bytes_def w32_bytes_def split: prod.splits)

lemma length_sha256_tail: "length (sha256_tail st n m) = 32"
  by (simp add: sha256_tail_def Let_def length_digest_bytes)

lemma length_hmac_sha256: "length (hmac_sha256 key msg) = 32"
  by (simp add: hmac_sha256_def sha256_def Let_def length_sha256_tail)

lemma sha256_tail_prefix:
  assumes "length b = 64"
  shows "sha256_tail st n (b @ m) = sha256_tail (compress st b) (n + 64) m"
proof -
  let ?p = "m @ [0x80] @ replicate ((119 - length m mod 64) mod 64) 0 @ u64be (8 * (n + 64 + length m))"
  have 1: "(119 - length (b @ m) mod 64) mod 64 = (119 - length m mod 64) mod 64"
    using assms by simp
  have 2: "n + length (b @ m) = n + 64 + length m" using assms by simp
  have 3: "length (b @ ?p) div 64 = Suc (length ?p div 64)" using assms by simp
  have "sha256_tail st n (b @ m) = digest_bytes (blocks (length (b @ ?p) div 64) (b @ ?p) st)"
    unfolding sha256_tail_def Let_def 1 2 by simp
  also have "\<dots> = digest_bytes (blocks (length ?p div 64) ?p (compress st b))"
    unfolding 3 using assms by simp
  finally show ?thesis by (simp add: sha256_tail_def Let_def)
qed

lemma hmac_sha256_key32:
  assumes "length key = 32"
  shows "hmac_sha256 key msg =
           sha256_tail (compress H0 (map (\<lambda>b. b XOR 0x5c) (key @ replicate 32 0))) 64
             (sha256_tail (compress H0 (map (\<lambda>b. b XOR 0x36) (key @ replicate 32 0))) 64 msg)"
proof -
  have l: "length (map (\<lambda>b. b XOR c) (key @ replicate 32 0)) = 64" for c :: byte
    using assms by simp
  show ?thesis
    using assms sha256_tail_prefix [OF l, where st = H0 and n = 0]
    by (simp add: hmac_sha256_def sha256_def Let_def)
qed

lemma hmacSha256_node: "hmacSha256 node k m = hmac_sha256 k m"
  by (simp add: hmacSha256_def node_def)

lemma key_test: "deriveKeyBytes node (js_of ''test-seed'') = test_key"
  by (simp only: key_eval test_key_def)

lemma ipad_state: "compress H0 (map (\<lambda>b. b XOR 0x36) (test_key @ replicate 32 0)) = test_ipad"
  by (simp add: test_key_def test_ipad_def sha_eval)

lemma opad_state: "compress H0 (map (\<lambda>b. b XOR 0x5c) (test_key @ replicate 32 0)) = test_opad"
  by (simp add: test_key_def test_opad_def sha_eval)

lemma hmac_test_key:
  "hmac_sha256 test_key msg = sha256_tail test_opad 64 (sha256_tail test_ipad 64 msg)"
proof -
  have "length test_key = 32" by (simp add: test_key_def)
  from hmac_sha256_key32 [OF this] show ?thesis by (simp only: ipad_state opad_state)
qed

text \<open>
  The codes of the windows 998 to 1002 for the seed \<open>test-seed\<close>: the message, the inner
  and the outer hash, the truncated value and the code.
\<close>

lemma msg_998: "numTo8ByteBE 998 = [0, 0, 0, 0, 0, 0, 3, 230]"
  by (simp add: numTo8ByteBE_eq upt8)

lemma inner_998:
  "sha256_tail test_ipad 64
     [0, 0, 0, 0, 0, 0, 3, 230] =
   [3, 109, 170, 167, 53, 70, 179, 8, 68, 241, 99, 213,
    121, 89, 56, 65, 50, 149, 227, 73, 58, 199, 134, 17,
    79, 235, 60, 230, 2, 98, 39, 43]"
  by (simp add: test_ipad_def sha_eval)

lemma outer_998:
  "sha256_tail test_opad 64
     [3, 109, 170, 167, 53, 70, 179, 8, 68, 241, 99, 213,
      121, 89, 56, 65, 50, 149, 227, 73, 58, 199, 134, 17,
      79, 235, 60, 230, 2, 98, 39, 43] =
   [79, 175, 116, 138, 23, 70, 84, 224, 217, 211, 108, 39,
    132, 29, 237, 162, 88, 67, 212, 237, 255, 194, 104, 188,
    175, 6, 102, 246, 113, 100, 231, 137]"
  by (simp add: test_opad_def sha_eval)

lemma mac_998:
  "hmacSha256 node (deriveKeyBytes node (js_of ''test-seed'')) (numTo8ByteBE 998) =
   [79, 175, 116, 138, 23, 70, 84, 224, 217, 211, 108, 39,
    132, 29, 237, 162, 88, 67, 212, 237, 255, 194, 104, 188,
    175, 6, 102, 246, 113, 100, 231, 137]"
  by (simp only: hmacSha256_node key_test msg_998 hmac_test_key inner_998 outer_998)

lemma bin_998:
  "dynamicTruncate [79, 175, 116, 138, 23, 70, 84, 224, 217, 211, 108, 39,
          132, 29, 237, 162, 88, 67, 212, 237, 255, 194, 104, 188,
          175, 6, 102, 246, 113, 100, 231, 137] = 1399596932"
  by (simp add: dynamicTruncate_def dynamicTruncate_offset_def buf_at_def toInt32_def Let_def)

lemma code_998: "totpForCounter node (js_of ''test-seed'') 998 6 = js_of ''596932''"
  unfolding totpForCounter_def Let_def mac_998 bin_998
  by (simp add: String_number_small String_number_step padStart_def digit_unit_def js_of_def
        replicate_numeral_Cons)

lemma msg_999: "numTo8ByteBE 999 = [0, 0, 0, 0, 0, 0, 3, 231]"
  by (simp add: numTo8ByteBE_eq upt8)

lemma inner_999:
  "sha256_tail test_ipad 64
     [0, 0, 0, 0, 0, 0, 3, 231] =
   [255, 99, 251, 50, 111, 250, 71, 131, 213, 169, 113, 127,
    228, 212, 16, 122, 196, 56, 141, 58, 28, 168, 234, 16,
    235, 205, 70, 241, 112, 11, 133, 208]"
  by (simp add: test_ipad_def sha_eval)

lemma outer_999:
  "sha256_tail test_opad 64
     [255, 99, 251, 50, 111, 250, 71, 131, 213, 169, 113, 127,
      228, 212, 16, 122, 196, 56, 141, 58, 28, 168, 234, 16,
      235, 205, 70, 241, 112, 11, 133, 208] =
   [171, 175, 112, 108, 93, 129, 166, 108, 240, 239, 239, 217,
    116, 135, 171, 185, 25, 150, 218, 57, 143, 66, 49, 10,
    0, 31, 131, 173, 83, 93, 91, 23]"
  by (simp add: test_opad_def sha_eval)

lemma mac_999:
  "hmacSha256 node (deriveKeyBytes node (js_of ''test-seed'')) (numTo8ByteBE 999) =
   [171, 175, 112, 108, 93, 129, 166, 108, 240, 239, 239, 217,
    116, 135, 171, 185, 25, 150, 218, 57, 143, 66, 49, 10,
    0, 31, 131, 173, 83, 93, 91, 23]"
  by (simp only: hmacSha256_node key_test msg_999 hmac_test_key inner_999 outer_999)

lemma bin_999:
  "dynamicTruncate [171, 175, 112, 108, 93, 129, 166, 108, 240, 239, 239, 217,
          116, 135, 171, 185, 25, 150, 218, 57, 143, 66, 49, 10,
          0, 31, 131, 173, 83, 93, 91, 23] = 1827729391"
  by (simp add: dynamicTruncate_def dynamicTruncate_offset_def buf_at_def toInt32_def Let_def)

lemma code_999: "totpForCounter node (js_of ''test-seed'') 999 6 = js_of ''729391''"
  unfolding totpForCounter_def Let_def mac_999 bin_999
  by (simp add: String_number_small String_number_step padStart_def digit_unit_def js_of_def
        replicate_numeral_Cons)

lemma msg_1000: "numTo8ByteBE 1000 = [0, 0, 0, 0, 0, 0, 3, 232]"
  by (simp add: numTo8ByteBE_eq upt8)

lemma inner_1000:
  "sha256_tail test_ipad 64
     [0, 0, 0, 0, 0, 0, 3, 232] =
   [53, 167, 15, 237, 196, 106, 136, 86, 9, 104, 228, 15,
    70, 69, 191, 144, 48, 249, 87, 18, 84, 230, 241, 18,
    216, 51, 179, 6, 166, 166, 45, 157]"
  by (simp add: test_ipad_def sha_eval)

lemma outer_1000:
  "sha256_tail test_opad 64
     [53, 167, 15, 237, 196, 106, 136, 86, 9, 104, 228, 15,
      70, 69, 191, 144, 48, 249, 87, 18, 84, 230, 241, 18,
      216, 51, 179, 6, 166, 166, 45, 157] =
   [50, 201, 138, 207, 101, 127, 139, 60, 114, 241, 14, 52,
    253, 179, 160, 75, 107, 178, 117, 205, 31, 209, 236, 243,
    1, 203, 66, 218, 13, 243, 124, 167]"
  by (simp add: test_opad_def sha_eval)

lemma mac_1000:
  "hmacSha256 node (deriveKeyBytes node (js_of ''test-seed'')) (numTo8ByteBE 1000) =
   [50, 201, 138, 207, 101, 127, 139, 60, 114, 241, 14, 52,
    253, 179, 160, 75, 107, 178, 117, 205, 31, 209, 236, 243,
    1, 203, 66, 218, 13, 243, 124, 167]"
  by (simp only: hmacSha256_node key_test msg_1000 hmac_test_key inner_1000 outer_1000)

lemma bin_1000:
  "dynamicTruncate [50, 201, 138, 207, 101, 127, 139, 60, 114, 241, 14, 52,
          253, 179, 160, 75, 107, 178, 117, 205, 31, 209, 236, 243,
          1, 203, 66, 218, 13, 243, 124, 167] = 1014165774"
  by (simp add: dynamicTruncate_def dynamicTruncate_offset_def buf_at_def toInt32_def Let_def)

lemma code_1000: "totpForCounter node (js_of ''test-seed'') 1000 6 = js_of ''165774''"
  unfolding totpForCounter_def Let_def mac_1000 bin_1000
  by (simp add: String_number_small String_number_step padStart_def digit_unit_def js_of_def
        replicate_numeral_Cons)

lemma msg_1001: "numTo8ByteBE 1001 = [0, 0, 0, 0, 0, 0, 3, 233]"
  by (simp add: numTo8ByteBE_eq upt8)

lemma inner_1001:
  "sha256_tail test_ipad 64
     [0, 0, 0, 0, 0, 0, 3, 233] =
   [95, 67, 115, 87, 152, 245, 33, 236, 69, 163, 33, 26,
    74, 172, 157, 239, 133, 194, 178, 58, 174, 64, 166, 42,
    220, 171, 34, 75, 41, 90, 16, 196]"
  by (simp add: test_ipad_def sha_eval)

lemma outer_1001:
  "sha256_tail test_opad 64
     [95, 67, 115, 87, 152, 245, 33, 236, 69, 163, 33, 26,
      74, 172, 157, 239, 133, 194, 178, 58, 174, 64, 166, 42,
      220, 171, 34, 75, 41, 90, 16, 196] =
   [1, 234, 191, 165, 127, 136, 164, 69, 236, 65, 214, 26,
    135, 192, 234, 117, 25, 135, 81, 187, 44, 46, 27, 5,
    137, 150, 20, 120, 21, 133, 196, 7]"
  by (simp add: test_opad_def sha_eval)

lemma mac_1001:
  "hmacSha256 node (deriveKeyBytes node (js_of ''test-seed'')) (numTo8ByteBE 1001) =
   [1, 234, 191, 165, 127, 136, 164, 69, 236, 65, 214, 26,
    135, 192, 234, 117, 25, 135, 81, 187, 44, 46, 27, 5,
    137, 150, 20, 120, 21, 133, 196, 7]"
  by (simp only: hmacSha256_node key_test msg_1001 hmac_test_key inner_1001 outer_1001)

lemma bin_1001:
  "dynamicTruncate [1, 234, 191, 165, 127, 136, 164, 69, 236, 65, 214, 26,
          135, 192, 234, 117, 25, 135, 81, 187, 44, 46, 27, 5,
          137, 150, 20, 120, 21, 133, 196, 7] = 1173111254"
  by (simp add: dynamicTruncate_def dynamicTruncate_offset_def buf_at_def toInt32_def Let_def)

lemma code_1001: "totpForCounter node (js_of ''test-seed'') 1001 6 = js_of ''111254''"
  unfolding totpForCounter_def Let_def mac_1001 bin_1001
  by (simp add: String_number_small String_number_step padStart_def digit_unit_def js_of_def
        replicate_numeral_Cons)

lemma msg_1002: "numTo8ByteBE 1002 = [0, 0, 0, 0, 0, 0, 3, 234]"
  by (simp add: numTo8ByteBE_eq upt8)

lemma inner_1002:
  "sha256_tail test_ipad 64
     [0, 0, 0, 0, 0, 0, 3, 234] =
   [104, 19, 153, 163, 178, 49, 225, 153, 141, 105, 129, 61,
    112, 16, 157, 41, 22, 183, 156, 60, 208, 247, 20, 5,
    74, 249, 249, 9, 24, 148, 64, 163]"
  by (simp add: test_ipad_def sha_eval)

lemma outer_1002:
  "sha256_tail test_opad 64
     [104, 19, 153, 163, 178, 49, 225, 153, 141, 105, 129, 61,
      112, 16, 157, 41, 22, 183, 156, 60, 208, 247, 20, 5,
      74, 249, 249, 9, 24, 148, 64, 163] =
   [136, 125, 167, 109, 130, 130, 14, 109, 253, 153, 109, 135,
    123, 112, 86, 229, 188, 47, 139, 121, 109, 247, 207, 70,
    36, 237, 176, 226, 38, 72, 253, 53]"
  by (simp add: test_opad_def sha_eval)

lemma mac_1002:
  "hmacSha256 node (deriveKeyBytes node (js_of ''test-seed'')) (numTo8ByteBE 1002) =
   [136, 125, 167, 109, 130, 130, 14, 109, 253, 153, 109, 135,
    123, 112, 86, 229, 188, 47, 139, 121, 109, 247, 207, 70,
    36, 237, 176, 226, 38, 72, 253, 53]"
  by (simp only: hmacSha256_node key_test msg_1002 hmac_test_key inner_1002 outer_1002)

lemma bin_1002:
  "dynamicTruncate [136, 125, 167, 109, 130, 130, 14, 109, 253, 153, 109, 135,
          123, 112, 86, 229, 188, 47, 139, 121, 109, 247, 207, 70,
          36, 237, 176, 226, 38, 72, 253, 53] = 34500093"
  by (simp add: dynamicTruncate_def dynamicTruncate_offset_def buf_at_def toInt32_def Let_def)

lemma code_1002: "totpForCounter node (js_of ''test-seed'') 1002 6 = js_of ''500093''"
  unfolding totpForCounter_def Let_def mac_1002 bin_1002
  by (simp add: String_number_small String_number_step padStart_def digit_unit_def js_of_def
        replicate_numeral_Cons)

section \<open>The handler and the table\<close>

lemma boundary_check:
  "(\<not> truthy code \<or> \<not> typeof_is_string code \<or> length (string_of code) < 6) = (\<not> passes_boundary code)"
  by (cases code) (auto simp: passes_boundary_def string_of_def)

lemma select_None_iff: "select_used_codes db w s = None \<longleftrightarrow> (w, s) \<notin> keys_of db"
  unfolding select_used_codes_def keys_of_def
  by (induction db) (auto simp: has_key_def)

lemma keys_of_append [simp]: "keys_of (db @ [r]) = insert (window r, sid r) (keys_of db)"
  by (auto simp: keys_of_def)

lemma verify_code_cases:
  "verify_code L cfg db s code nowMs insertMs =
     (let w = currentWindow nowMs (CODE_STEP_SECONDS cfg);
          vc = validCodes L cfg (PROCTOR_SEED cfg) nowMs
      in if \<not> passes_boundary code then (db, InvalidInput)
         else if PROCTOR_SEED cfg = [] then (db, ServerMisconfigured)
         else if (w, s) \<in> keys_of db then (db, AlreadyUsed w (expiresIn vc))
         else if string_of code \<notin> set (codes vc) then (db, InvalidCode w (expiresIn vc))
         else (db @ [\<lparr> window = w, sid = s, created_at = insertMs \<rparr>], Accepted w (expiresIn vc)))"
proof -
  have w: "vc_window (validCodes L cfg (PROCTOR_SEED cfg) nowMs) = currentWindow nowMs (CODE_STEP_SECONDS cfg)"
    by (simp add: validCodes_def Let_def)
  have ins: "insert_or_ignore db r = db @ [r]" if "(window r, sid r) \<notin> keys_of db" for r
    using that select_None_iff [of db "window r" "sid r"]
    by (simp add: insert_or_ignore_def select_used_codes_def)
  show ?thesis
    unfolding verify_code_def boundary_check Let_def w
    by (simp add: select_None_iff ins)
qed

lemma handle_cases:
  "handle L cfg db rq = db \<or>
   (\<exists>w s ts. (w, s) \<notin> keys_of db
      \<and> handle L cfg db rq = db @ [\<lparr> window = w, sid = s, created_at = ts \<rparr>])"
  unfolding handle_def verify_code_cases by (auto simp: Let_def)



lemma handle_prefix: "take (length db) (handle L cfg db rq) = db"
  using handle_cases [of L cfg db rq] by auto




lemma run_prefix: "take (length db) (run L cfg db rqs) = db"
  unfolding run_def
proof (induction rqs arbitrary: db)
  case Nil
  then show ?case by simp
next
  case (Cons rq rqs)
  have "length db \<le> length (handle L cfg db rq)"
    using handle_cases [of L cfg db rq] by auto
  then have "take (length db) (foldl (handle L cfg) (handle L cfg db rq) rqs)
              = take (length db) (take (length (handle L cfg db rq)) (foldl (handle L cfg) (handle L cfg db rq) rqs))"
    by (simp add: min_def)
  also have "\<dots> = take (length db) (handle L cfg db rq)" by (simp only: Cons.IH)
  also have "\<dots> = db" by (rule handle_prefix)
  finally show ?case by simp
qed



lemma totp6_shape:
  "length (totpForCounter L seed c 6) = 6 \<and> list_all is_digit_unit (totpForCounter L seed c 6)"
proof -
  define v where "v = dynamicTruncate (hmacSha256 L (deriveKeyBytes L seed) (numTo8ByteBE c)) mod 10 ^ 6"
  have t: "totpForCounter L seed c 6 = padStart 6 (digit_unit 0) (String_number v)"
    by (simp add: totpForCounter_def v_def Let_def)
  have "v < 10 ^ 6" by (simp add: v_def)
  then have len: "length (String_number v) \<le> 6" by (intro String_number_length) simp_all
  have "list_all is_digit_unit (replicate k (digit_unit 0))" for k
    by (simp add: list_all_iff is_digit_unit_digit)
  then show ?thesis
    unfolding t using len by (simp add: padStart_def String_number_digits)
qed

lemma passes_boundary_iff: "passes_boundary code \<longleftrightarrow> (\<exists>str. code = JString str \<and> 6 \<le> length str)"
  by (cases code) (simp_all add: passes_boundary_def)

lemma codes_validCodes:
  "codes (validCodes L cfg seed nowMs) =
     [ totpForCounter L seed (currentWindow nowMs (CODE_STEP_SECONDS cfg) - DRIFT_STEPS cfg) 6,
       totpForCounter L seed (currentWindow nowMs (CODE_STEP_SECONDS cfg)) 6,
       totpForCounter L seed (currentWindow nowMs (CODE_STEP_SECONDS cfg) + DRIFT_STEPS cfg) 6 ]"
  by (simp add: validCodes_def Let_def)




lemma test_validCodes_default:
  "validCodes node cfg_default (PROCTOR_SEED cfg_default) 30000000 =
     \<lparr> vc_window = 1000, codes = [js_of ''729391'', js_of ''165774'', js_of ''111254''], expiresIn = 30 \<rparr>"
  by (simp add: validCodes_def cfg_default_def currentWindow_def js_rem_def
        code_999 code_1000 code_1001)

lemma test_validCodes_drift2:
  "validCodes node cfg_drift2 (PROCTOR_SEED cfg_drift2) 30000000 =
     \<lparr> vc_window = 1000, codes = [js_of ''596932'', js_of ''165774'', js_of ''500093''], expiresIn = 30 \<rparr>"
  by (simp add: validCodes_def cfg_drift2_def currentWindow_def js_rem_def
        code_998 code_1000 code_1002)

lemma test_seed_default: "PROCTOR_SEED cfg_default = js_of ''test-seed''"
  by (simp add: cfg_default_def)

lemma test_seed_drift2: "PROCTOR_SEED cfg_drift2 = js_of ''test-seed''"
  by (simp add: cfg_drift2_def)

lemma test_window: "currentWindow 30000000 (CODE_STEP_SECONDS cfg_default) = 1000"
  by (simp add: currentWindow_def cfg_default_def)

lemma test_seed: "PROCTOR_SEED cfg_default \<noteq> []"
  by (simp add: cfg_default_def js_of_def)

lemma test_seed2: "PROCTOR_SEED cfg_drift2 \<noteq> []"
  by (simp add: cfg_drift2_def js_of_def)

lemma test_window_drift2: "currentWindow 30000000 (CODE_STEP_SECONDS cfg_drift2) = 1000"
  by (simp add: currentWindow_def cfg_drift2_def)

text \<open>
  The handler with \<open>DRIFT_STEPS = 2\<close> in window 1000: the codes of the windows 998 and 1002
  are accepted, the code of window 1001 is answered \<open>invalid_code\<close>.
\<close>

lemma test_verify_drift2:
  "verify_code node cfg_drift2 [] (js_of ''s1'') (JString (js_of ''111254'')) 30000000 30000001
     = ([], InvalidCode 1000 30)"
  "snd (verify_code node cfg_drift2 [] (js_of ''s1'') (JString (js_of ''596932'')) 30000000 30000001)
     = Accepted 1000 30"
  "snd (verify_code node cfg_drift2 [] (js_of ''s1'') (JString (js_of ''500093'')) 30000000 30000001)
     = Accepted 1000 30"
  by (simp_all add: verify_code_cases passes_boundary_def string_of_def test_seed2
        test_window_drift2 test_validCodes_drift2 keys_of_def js_of_def Let_def)

lemmas test_verify_eval =
  verify_code_cases passes_boundary_def string_of_def test_seed test_window
  test_validCodes_default keys_of_def js_of_def Let_def

section \<open>The claims\<close>

subsection \<open>Single consumption\<close>



subsection \<open>The accepted codes\<close>

text \<open>
  Claim C3. The accepted set is to hold the codes of all windows from \<open>w - drift\<close> to
  \<open>w + drift\<close>. \<open>validCodes\<close> computes the codes of the three windows \<open>w - drift\<close>,
  \<open>w\<close> and \<open>w + drift\<close> only, so for a drift of two or more steps it leaves out the
  windows in between, although the comment at \<open>DRIFT_STEPS\<close> reads \<open>\<plusminus>1 allowed\<close>, that
  is a tolerance around the current window. With \<open>DRIFT_STEPS = 2\<close>, the seed
  \<open>test-seed\<close> and the clock at 30000000 ms the window is 1000: the accepted list holds
  the codes of the windows 998, 1000 and 1002, and 111254, the code of the window 1001
  next to the current one, is not in it.
\<close>

theorem validCodes_drift2_skips_neighbour:
  "currentWindow 30000000 (CODE_STEP_SECONDS cfg_drift2) = 1000
   \<and> DRIFT_STEPS cfg_drift2 = 2
   \<and> totpForCounter node (PROCTOR_SEED cfg_drift2) 1001 6 = js_of ''111254''
   \<and> js_of ''111254'' \<in> accepted_set_spec node (PROCTOR_SEED cfg_drift2) 1000 2
   \<and> codes (validCodes node cfg_drift2 (PROCTOR_SEED cfg_drift2) 30000000)
        = [js_of ''596932'', js_of ''165774'', js_of ''500093'']
   \<and> js_of ''111254'' \<notin> set (codes (validCodes node cfg_drift2 (PROCTOR_SEED cfg_drift2) 30000000))
   \<and> set (codes (validCodes node cfg_drift2 (PROCTOR_SEED cfg_drift2) 30000000))
        \<noteq> accepted_set_spec node (PROCTOR_SEED cfg_drift2)
             (currentWindow 30000000 (CODE_STEP_SECONDS cfg_drift2)) (DRIFT_STEPS cfg_drift2)"
proof -
  have w: "currentWindow 30000000 (CODE_STEP_SECONDS cfg_drift2) = 1000"
    by (simp add: currentWindow_def cfg_drift2_def)
  have d: "DRIFT_STEPS cfg_drift2 = 2" by (simp add: cfg_drift2_def)
  have c: "totpForCounter node (PROCTOR_SEED cfg_drift2) 1001 6 = js_of ''111254''"
    by (simp add: code_1001 test_seed_drift2)
  have i: "js_of ''111254'' \<in> accepted_set_spec node (PROCTOR_SEED cfg_drift2) 1000 2"
    unfolding accepted_set_spec_def
    by (rule image_eqI [where x = 1001]) (simp_all add: c)
  have l: "codes (validCodes node cfg_drift2 (PROCTOR_SEED cfg_drift2) 30000000)
             = [js_of ''596932'', js_of ''165774'', js_of ''500093'']"
    by (simp add: test_validCodes_drift2)
  have n: "js_of ''111254'' \<notin> set (codes (validCodes node cfg_drift2 (PROCTOR_SEED cfg_drift2) 30000000))"
    by (simp add: test_validCodes_drift2 js_of_def)
  have ne: "set (codes (validCodes node cfg_drift2 (PROCTOR_SEED cfg_drift2) 30000000))
        \<noteq> accepted_set_spec node (PROCTOR_SEED cfg_drift2)
             (currentWindow 30000000 (CODE_STEP_SECONDS cfg_drift2)) (DRIFT_STEPS cfg_drift2)"
    using i n unfolding w d by blast
  from w d c i l n ne show ?thesis by blast
qed

subsection \<open>The check of the submitted code\<close>

text \<open>
  Claim C4 as stated fails: \<open>abcdef\<close> (six characters, no digits) and \<open>1234567\<close>
  (seven digits) are not codes of six decimal digits, and both get past the check of line
  147; the answer is \<open>invalid_code\<close> with status 401, after the secret, the table and the
  accepted list have been consulted.
\<close>

theorem invalid_input_counterexample:
  "\<not> well_formed_spec (JString (js_of ''abcdef''))
   \<and> snd (verify_code node cfg_default [] (js_of ''s1'') (JString (js_of ''abcdef'')) 30000000 30000001)
       = InvalidCode 1000 30
   \<and> \<not> well_formed_spec (JString (js_of ''1234567''))
   \<and> snd (verify_code node cfg_default [] (js_of ''s1'') (JString (js_of ''1234567'')) 30000000 30000001)
       = InvalidCode 1000 30"
  by (simp add: well_formed_spec_def is_digit_unit_def test_verify_eval)

text \<open>
  Claim C4 as amended. The handler answers \<open>InvalidInput\<close> exactly when the submitted
  code is not a string of at least six code units; then it answers so whatever the
  library, the configuration, the table and the clock are, and leaves the table unchanged.
\<close>

theorem invalid_input_boundary:
  "(snd (verify_code L cfg db s code nowMs ts) = InvalidInput
      \<longleftrightarrow> \<not> (\<exists>str. code = JString str \<and> 6 \<le> length str))
   \<and> (\<not> (\<exists>str. code = JString str \<and> 6 \<le> length str)
      \<longrightarrow> verify_code L cfg db s code nowMs ts = (db, InvalidInput))"
  unfolding passes_boundary_iff [symmetric]
  by (simp add: verify_code_cases Let_def)

text \<open>
  Claim C4 as amended, without a configured secret: \<open>12345\<close> is answered
  \<open>InvalidInput\<close>, \<open>123456\<close> is not.
\<close>

theorem invalid_input_boundary_witness:
  "\<not> (\<exists>str. JString (js_of ''12345'') = JString str \<and> 6 \<le> length str)
   \<and> verify_code node cfg_unset [] (js_of ''s1'') (JString (js_of ''12345'')) 30000000 30000001
       = ([], InvalidInput)
   \<and> (\<exists>str. JString (js_of ''123456'') = JString str \<and> 6 \<le> length str)
   \<and> snd (verify_code node cfg_unset [] (js_of ''s1'') (JString (js_of ''123456'')) 30000000 30000001)
       \<noteq> InvalidInput"
  using invalid_input_boundary [of node cfg_unset "[]" "js_of ''s1''" "JString (js_of ''12345'')" 30000000 30000001]
        invalid_input_boundary [of node cfg_unset "[]" "js_of ''s1''" "JString (js_of ''123456'')" 30000000 30000001]
  by (simp add: js_of_def)

subsection \<open>The code generator and its reference definition\<close>

text \<open>
  Claim C5. For every secret and every counter \<open>\<ge> 0\<close>, \<open>totpForCounter\<close> computes the
  code of the reference definition \<open>computeCode_spec\<close>: key = SHA-256(secret), mac =
  HMAC-SHA256(key, counter as 8 big-endian bytes), offset = \<open>mac[31] & 0x0F\<close>, \<open>v\<close> the
  big-endian value of \<open>mac[offset..offset+3]\<close> with the top bit of the first byte masked,
  and the decimal string of \<open>v mod 10^digits\<close> padded with zeros to \<open>digits\<close>
  characters. The digest of HMAC-SHA256 has 32 bytes; for the library parameter this is the
  hypothesis.
\<close>

theorem totpForCounter_refines_spec:
  assumes "length (createHmac_sha256 L (createHash_sha256 L (Buffer_from_utf8 L secret))
                     (be64_spec counter)) = 32"
  shows "totpForCounter L secret (int counter) digits = computeCode_spec L secret counter digits"
  using assms
  by (simp add: totpForCounter_def computeCode_spec_def deriveKeyBytes_def textToBytes_def
        hmacSha256_def numTo8ByteBE_be64 dynamicTruncate32 padStart_def Let_def)

text \<open>Claim C5 on the window 1000: both definitions give \<open>165774\<close>.\<close>

theorem totpForCounter_refines_spec_witness:
  "length (createHmac_sha256 node (createHash_sha256 node (Buffer_from_utf8 node (js_of ''test-seed'')))
             (be64_spec 1000)) = 32
   \<and> totpForCounter node (js_of ''test-seed'') 1000 6 = computeCode_spec node (js_of ''test-seed'') 1000 6
   \<and> computeCode_spec node (js_of ''test-seed'') 1000 6 = js_of ''165774''"
proof -
  have h: "length (createHmac_sha256 node (createHash_sha256 node (Buffer_from_utf8 node (js_of ''test-seed'')))
             (be64_spec 1000)) = 32"
    by (simp add: node_def length_hmac_sha256)
  from totpForCounter_refines_spec [OF h, of 6] h show ?thesis
    by (simp add: code_1000)
qed

subsection \<open>The replay key\<close>

text \<open>
  Claim C6. The handler answers \<open>already_used\<close> exactly when the request passes the first
  two checks and the table has a row under the current window and the session; the only
  row it ever writes is under the current window; and its response depends on the table
  only through the presence of that key, so that no row under another window is consulted.
\<close>

theorem replay_key_current_window:
  "(is_AlreadyUsed (snd (verify_code L cfg db s code nowMs ts))
      \<longleftrightarrow> (\<exists>str. code = JString str \<and> 6 \<le> length str) \<and> PROCTOR_SEED cfg \<noteq> []
          \<and> select_used_codes db (currentWindow nowMs (CODE_STEP_SECONDS cfg)) s \<noteq> None)
   \<and> (fst (verify_code L cfg db s code nowMs ts) = db
       \<or> fst (verify_code L cfg db s code nowMs ts)
           = db @ [\<lparr> window = currentWindow nowMs (CODE_STEP_SECONDS cfg), sid = s, created_at = ts \<rparr>])
   \<and> (\<forall>db'. (select_used_codes db' (currentWindow nowMs (CODE_STEP_SECONDS cfg)) s = None
              \<longleftrightarrow> select_used_codes db (currentWindow nowMs (CODE_STEP_SECONDS cfg)) s = None)
          \<longrightarrow> snd (verify_code L cfg db' s code nowMs ts) = snd (verify_code L cfg db s code nowMs ts))"
proof -
  let ?w = "currentWindow nowMs (CODE_STEP_SECONDS cfg)"
  have 1: "is_AlreadyUsed (snd (verify_code L cfg db s code nowMs ts))
      \<longleftrightarrow> (\<exists>str. code = JString str \<and> 6 \<le> length str) \<and> PROCTOR_SEED cfg \<noteq> []
          \<and> select_used_codes db ?w s \<noteq> None"
    unfolding passes_boundary_iff [symmetric] select_None_iff
    by (simp add: verify_code_cases Let_def)
  have 2: "fst (verify_code L cfg db s code nowMs ts) = db
       \<or> fst (verify_code L cfg db s code nowMs ts)
           = db @ [\<lparr> window = ?w, sid = s, created_at = ts \<rparr>]"
    by (simp add: verify_code_cases Let_def)
  have 3: "snd (verify_code L cfg db' s code nowMs ts) = snd (verify_code L cfg db s code nowMs ts)"
    if "select_used_codes db' ?w s = None \<longleftrightarrow> select_used_codes db ?w s = None" for db'
  proof -
    from that have "(?w, s) \<in> keys_of db' \<longleftrightarrow> (?w, s) \<in> keys_of db"
      by (simp add: select_None_iff)
    then show ?thesis by (simp add: verify_code_cases Let_def)
  qed
  from 1 2 3 show ?thesis by blast
qed

text \<open>
  Claim C6 with the code of the neighbouring window 999 submitted in window 1000: the row
  of session \<open>s1\<close> under window 999 does not stop the request, and the new row is under
  window 1000.
\<close>

theorem replay_key_current_window_witness:
  "select_used_codes [\<lparr> window = 999, sid = js_of ''s1'', created_at = 29970001 \<rparr>] 999 (js_of ''s1'') \<noteq> None
   \<and> select_used_codes [\<lparr> window = 999, sid = js_of ''s1'', created_at = 29970001 \<rparr>] 1000 (js_of ''s1'') = None
   \<and> totpForCounter node (PROCTOR_SEED cfg_default) 999 6 = js_of ''729391''
   \<and> verify_code node cfg_default [\<lparr> window = 999, sid = js_of ''s1'', created_at = 29970001 \<rparr>]
         (js_of ''s1'') (JString (js_of ''729391'')) 30000000 30000001
       = ([\<lparr> window = 999, sid = js_of ''s1'', created_at = 29970001 \<rparr>,
           \<lparr> window = 1000, sid = js_of ''s1'', created_at = 30000001 \<rparr>], Accepted 1000 30)
   \<and> snd (verify_code node cfg_default [] (js_of ''s1'') (JString (js_of ''729391'')) 30000000 30000001)
       = Accepted 1000 30"
proof -
  let ?db = "[\<lparr> window = 999, sid = js_of ''s1'', created_at = 29970001 \<rparr>]"
  have a: "select_used_codes ?db 999 (js_of ''s1'') \<noteq> None"
    and b: "select_used_codes ?db 1000 (js_of ''s1'') = None"
    and c: "select_used_codes [] 1000 (js_of ''s1'') = None"
    by (simp_all add: select_used_codes_def has_key_def)
  have v: "verify_code node cfg_default ?db (js_of ''s1'') (JString (js_of ''729391'')) 30000000 30000001
             = (?db @ [\<lparr> window = 1000, sid = js_of ''s1'', created_at = 30000001 \<rparr>], Accepted 1000 30)"
    by (simp add: test_verify_eval)
  note T = replay_key_current_window [of node cfg_default ?db "js_of ''s1''"
      "JString (js_of ''729391'')" 30000000 30000001]
  have "snd (verify_code node cfg_default [] (js_of ''s1'') (JString (js_of ''729391'')) 30000000 30000001)
              = snd (verify_code node cfg_default ?db (js_of ''s1'') (JString (js_of ''729391'')) 30000000 30000001)"
    by (rule T [THEN conjunct2, THEN conjunct2, rule_format]) (simp add: b c test_window)
  with v a b show ?thesis by (simp add: code_999 test_seed_default)
qed

subsection \<open>Fixed width\<close>

text \<open>
  Claim C7. For every secret, every counter and every \<open>digits\<close> from 1 to 9,
  \<open>totpForCounter\<close> returns a string of exactly \<open>digits\<close> characters, all of them
  decimal digits, which is the zero-padded decimal representation of a value below
  \<open>10^digits\<close>.
\<close>

theorem totpForCounter_fixed_width:
  assumes "0 < digits" and "digits \<le> 9"
  shows "length (totpForCounter L seed counter digits) = digits
       \<and> list_all is_digit_unit (totpForCounter L seed counter digits)
       \<and> decimal_value (totpForCounter L seed counter digits) < 10 ^ digits
       \<and> totpForCounter L seed counter digits
           = padStart digits (digit_unit 0)
               (String_number (decimal_value (totpForCounter L seed counter digits)))"
proof -
  define v where
    "v = dynamicTruncate (hmacSha256 L (deriveKeyBytes L seed) (numTo8ByteBE counter)) mod 10 ^ digits"
  have t: "totpForCounter L seed counter digits = padStart digits (digit_unit 0) (String_number v)"
    by (simp add: totpForCounter_def v_def Let_def)
  have v: "v < 10 ^ digits" by (simp add: v_def)
  have len: "length (String_number v) \<le> digits"
    using assms(1) v by (rule String_number_length)
  have dv: "decimal_value (padStart digits (digit_unit 0) (String_number v)) = v"
    by (simp add: padStart_def decimal_value_zeros decimal_value_String_number)
  have dg: "list_all is_digit_unit (padStart digits (digit_unit 0) (String_number v))"
  proof -
    have "list_all is_digit_unit (replicate k (digit_unit 0))" for k
      by (simp add: list_all_iff is_digit_unit_digit)
    then show ?thesis by (simp add: padStart_def String_number_digits)
  qed
  show ?thesis
    unfolding t using len v dv dg by (simp add: padStart_length)
qed

text \<open>Claim C7 with six digits on the window 1000.\<close>

theorem totpForCounter_fixed_width_witness:
  "(0::nat) < 6 \<and> (6::nat) \<le> 9
   \<and> length (totpForCounter node (js_of ''test-seed'') 1000 6) = 6
   \<and> list_all is_digit_unit (totpForCounter node (js_of ''test-seed'') 1000 6)
   \<and> decimal_value (totpForCounter node (js_of ''test-seed'') 1000 6) < 10 ^ 6
   \<and> totpForCounter node (js_of ''test-seed'') 1000 6 = js_of ''165774''"
  using totpForCounter_fixed_width [of 6 node "js_of ''test-seed''" 1000]
  by (simp only: code_1000) simp

subsection \<open>No read outside the digest\<close>

text \<open>
  Claim C8. On a digest of 32 bytes the offset \<open>hmacBuf[31] & 0x0f\<close> is at most 15, the
  last of the four reads is at index \<open>offset + 3 \<le> 18\<close>, and every read of
  \<open>dynamicTruncate\<close> is inside the buffer.
\<close>

theorem dynamicTruncate_in_bounds:
  assumes "length hmacBuf = 32"
  shows "0 \<le> dynamicTruncate_offset hmacBuf \<and> dynamicTruncate_offset hmacBuf \<le> 15
       \<and> dynamicTruncate_offset hmacBuf + 3 \<le> 18
       \<and> list_all (\<lambda>i. buf_at hmacBuf i \<noteq> None) (dynamicTruncate_reads hmacBuf)"
  using assms offset_bounds32 [OF assms]
  by (simp add: dynamicTruncate_reads_def buf_at_def Let_def)

text \<open>
  Claim C8 on the digest that the program computes for the seed \<open>test-seed\<close> and the
  window 1000: its last byte is \<open>0xa7\<close>, the offset is 7 and the reads are at 31 and at 7
  to 10.
\<close>

theorem dynamicTruncate_in_bounds_witness:
  "length (hmacSha256 node (deriveKeyBytes node (js_of ''test-seed'')) (numTo8ByteBE 1000)) = 32
   \<and> dynamicTruncate_offset (hmacSha256 node (deriveKeyBytes node (js_of ''test-seed'')) (numTo8ByteBE 1000)) = 7
   \<and> dynamicTruncate_reads (hmacSha256 node (deriveKeyBytes node (js_of ''test-seed'')) (numTo8ByteBE 1000))
       = [31, 7, 8, 9, 10]
   \<and> list_all (\<lambda>i. buf_at (hmacSha256 node (deriveKeyBytes node (js_of ''test-seed'')) (numTo8ByteBE 1000)) i \<noteq> None)
         (dynamicTruncate_reads (hmacSha256 node (deriveKeyBytes node (js_of ''test-seed'')) (numTo8ByteBE 1000)))"
proof -
  let ?mac = "[50, 201, 138, 207, 101, 127, 139, 60, 114, 241, 14, 52,
          253, 179, 160, 75, 107, 178, 117, 205, 31, 209, 236, 243,
          1, 203, 66, 218, 13, 243, 124, 167]"
  have l: "length ?mac = 32" by simp
  have o: "dynamicTruncate_offset ?mac = 7"
    by (simp add: dynamicTruncate_offset_def buf_at_def toInt32_def)
  show ?thesis
    unfolding mac_1000
    using dynamicTruncate_in_bounds [OF l] l
    by (simp add: dynamicTruncate_reads_def o)
qed

subsection \<open>The ledger changes only on success\<close>

text \<open>
  Claim C9. A request that is not accepted leaves the table unchanged; an accepted one
  appends one row, for the current window and the session of the request. The rows that
  were in the table stay where they were and as they were, after one request and after any
  sequence of requests.
\<close>

theorem ledger_frame:
  "(\<not> is_Accepted (snd (verify_code L cfg db s code nowMs ts))
      \<longrightarrow> fst (verify_code L cfg db s code nowMs ts) = db)
   \<and> (is_Accepted (snd (verify_code L cfg db s code nowMs ts))
      \<longrightarrow> fst (verify_code L cfg db s code nowMs ts)
           = db @ [\<lparr> window = currentWindow nowMs (CODE_STEP_SECONDS cfg), sid = s, created_at = ts \<rparr>])
   \<and> take (length db) (fst (verify_code L cfg db s code nowMs ts)) = db
   \<and> take (length db) (run L cfg db rqs) = db"
  by (simp add: run_prefix) (simp add: verify_code_cases Let_def)

text \<open>
  Claim C9 on a table with one row: a wrong code of session \<open>s2\<close> changes nothing, the
  right code appends the row of \<open>s2\<close> behind the row of \<open>s1\<close>.
\<close>

theorem ledger_frame_witness:
  "\<not> is_Accepted (snd (verify_code node cfg_default
        [\<lparr> window = 1000, sid = js_of ''s1'', created_at = 30000001 \<rparr>] (js_of ''s2'')
        (JString (js_of ''999999'')) 30000000 30000002))
   \<and> verify_code node cfg_default
        [\<lparr> window = 1000, sid = js_of ''s1'', created_at = 30000001 \<rparr>] (js_of ''s2'')
        (JString (js_of ''999999'')) 30000000 30000002
       = ([\<lparr> window = 1000, sid = js_of ''s1'', created_at = 30000001 \<rparr>], InvalidCode 1000 30)
   \<and> is_Accepted (snd (verify_code node cfg_default
        [\<lparr> window = 1000, sid = js_of ''s1'', created_at = 30000001 \<rparr>] (js_of ''s2'')
        (JString (js_of ''165774'')) 30000000 30000002))
   \<and> fst (verify_code node cfg_default
        [\<lparr> window = 1000, sid = js_of ''s1'', created_at = 30000001 \<rparr>] (js_of ''s2'')
        (JString (js_of ''165774'')) 30000000 30000002)
       = [\<lparr> window = 1000, sid = js_of ''s1'', created_at = 30000001 \<rparr>,
          \<lparr> window = 1000, sid = js_of ''s2'', created_at = 30000002 \<rparr>]"
  using ledger_frame [of node cfg_default "[\<lparr> window = 1000, sid = js_of ''s1'', created_at = 30000001 \<rparr>]"
          "js_of ''s2''" "JString (js_of ''999999'')" 30000000 30000002 "[]"]
        ledger_frame [of node cfg_default "[\<lparr> window = 1000, sid = js_of ''s1'', created_at = 30000001 \<rparr>]"
          "js_of ''s2''" "JString (js_of ''165774'')" 30000000 30000002 "[]"]
  by (simp add: test_verify_eval)

subsection \<open>Soundness of acceptance\<close>

text \<open>
  Claim C10. If the handler accepts, the submitted value is a string equal to the code of
  one of the windows \<open>w - drift\<close>, \<open>w\<close>, \<open>w + drift\<close> for the current window
  \<open>w\<close>, and so has exactly six characters, all decimal digits.
\<close>

theorem acceptance_soundness:
  assumes "snd (verify_code L cfg db s code nowMs ts) = Accepted w e"
  shows "\<exists>str. code = JString str
           \<and> w = currentWindow nowMs (CODE_STEP_SECONDS cfg)
           \<and> (str = totpForCounter L (PROCTOR_SEED cfg) (w - DRIFT_STEPS cfg) 6
               \<or> str = totpForCounter L (PROCTOR_SEED cfg) w 6
               \<or> str = totpForCounter L (PROCTOR_SEED cfg) (w + DRIFT_STEPS cfg) 6)
           \<and> length str = 6 \<and> list_all is_digit_unit str"
proof -
  let ?w = "currentWindow nowMs (CODE_STEP_SECONDS cfg)"
  from assms have pb: "passes_boundary code"
    and w: "w = ?w"
    and mem: "string_of code \<in> set (codes (validCodes L cfg (PROCTOR_SEED cfg) nowMs))"
    by (auto simp: verify_code_cases Let_def split: if_splits)
  from pb obtain str where str: "code = JString str" by (auto simp: passes_boundary_iff)
  with mem have m: "str \<in> set (codes (validCodes L cfg (PROCTOR_SEED cfg) nowMs))"
    by (simp add: string_of_def)
  then have "str = totpForCounter L (PROCTOR_SEED cfg) (?w - DRIFT_STEPS cfg) 6
               \<or> str = totpForCounter L (PROCTOR_SEED cfg) ?w 6
               \<or> str = totpForCounter L (PROCTOR_SEED cfg) (?w + DRIFT_STEPS cfg) 6"
    by (simp add: codes_validCodes)
  moreover from this have "length str = 6 \<and> list_all is_digit_unit str"
    using totp6_shape by auto
  ultimately show ?thesis using str w by simp
qed

text \<open>Claim C10 for the code of window 1001 submitted in window 1000.\<close>

theorem acceptance_soundness_witness:
  "snd (verify_code node cfg_default [] (js_of ''s1'') (JString (js_of ''111254'')) 30000000 30000001)
     = Accepted 1000 30
   \<and> js_of ''111254'' = totpForCounter node (PROCTOR_SEED cfg_default) (1000 + DRIFT_STEPS cfg_default) 6
   \<and> length (js_of ''111254'') = 6 \<and> list_all is_digit_unit (js_of ''111254'')"
proof -
  have a: "snd (verify_code node cfg_default [] (js_of ''s1'') (JString (js_of ''111254'')) 30000000 30000001)
     = Accepted 1000 30"
    by (simp add: test_verify_eval)
  have d: "DRIFT_STEPS cfg_default = 1" by (simp add: cfg_default_def)
  from acceptance_soundness [OF a] have "length (js_of ''111254'') = 6 \<and> list_all is_digit_unit (js_of ''111254'')"
    by auto
  with a show ?thesis by (simp add: d code_1001 test_seed_default)
qed

end
